theory Spec2Isabelle
  imports Main "HOL-Library.Word"
begin

unbundle bit_operations_syntax

section \<open>Platform and process memory\<close>

text \<open>
  The embedding follows \<^verbatim>\<open>mempool.c\<close> as built by its Makefile on an LP64, little-endian
  target: \<^verbatim>\<open>int\<close> is 32 bits, \<^verbatim>\<open>void *\<close> is 64 bits (the source silences
  \<^verbatim>\<open>-Wint-to-pointer-cast\<close> for \<^verbatim>\<open>(void *)PAGE_SIZE\<close>, a warning that only exists
  where the two widths differ), and \<^verbatim>\<open>assert\<close> is live (no \<^verbatim>\<open>-DNDEBUG\<close>).

  Every address the allocator dereferences is 4-byte aligned, so chunk memory is a map
  from addresses to 32-bit cells. An \<^verbatim>\<open>int\<close> access touches one cell; a pointer access
  touches the cell and its successor, low half first. The chunk header (an \<^verbatim>\<open>int\<close>) and
  the free-list link (a pointer) of a chunk start at the same address, as in the source.
\<close>

type_synonym ptr = "64 word"
type_synonym heap = "ptr \<Rightarrow> 32 word"

definition FASTBIN_SIZE :: int where
  "FASTBIN_SIZE = 7"

definition HEADER_SIZE :: int where
  "HEADER_SIZE = 4"

text \<open>\<^verbatim>\<open>sizeof(void *)\<close>\<close>
definition PTR_SIZE :: nat where
  "PTR_SIZE = 8"

text \<open>\<^verbatim>\<open>MAP_FAILED\<close>, that is \<^verbatim>\<open>(void *) -1\<close>\<close>
definition MAP_FAILED :: ptr where
  "MAP_FAILED = - 1"

definition load32 :: "heap \<Rightarrow> ptr \<Rightarrow> 32 word" where
  "load32 h a = h a"

definition store32 :: "heap \<Rightarrow> ptr \<Rightarrow> 32 word \<Rightarrow> heap" where
  "store32 h a v = h(a := v)"

definition load64 :: "heap \<Rightarrow> ptr \<Rightarrow> ptr" where
  "load64 h a = word_cat (h (a + 4)) (h a)"

definition store64 :: "heap \<Rightarrow> ptr \<Rightarrow> ptr \<Rightarrow> heap" where
  "store64 h a v = h(a := ucast v, a + 4 := ucast (drop_bit 32 v))"

text \<open>
  The ways a call can end other than by returning: a failed \<^verbatim>\<open>assert\<close> aborts the
  process, an array access outside the array and an \<^verbatim>\<open>int\<close> result outside 32 bits are
  undefined behaviour, and the class search of \<^verbatim>\<open>mpool_alloc\<close> has no exit of its own.
\<close>

datatype fault = Assert_failed | Out_of_bounds | Diverges | Int_overflow

text \<open>The system calls the allocator makes, in order: address and byte count.\<close>

datatype syscall = Mmap ptr int | Munmap ptr int

text \<open>
  \<^verbatim>\<open>struct __mpool\<close>. The two \<^verbatim>\<open>malloc\<close>ed arrays \<^verbatim>\<open>ps\<close> and \<^verbatim>\<open>sizes\<close> are lists
  whose length is the number of elements the block really holds, \<^verbatim>\<open>fastbin\<close> has
  \<^verbatim>\<open>FASTBIN_SIZE\<close> elements and \<^verbatim>\<open>hs\<close> one per size class. \<^verbatim>\<open>NULL\<close> is 0.
\<close>

record mpool =
  cnt :: int
  pal :: int
  min_pool :: int
  max_pool :: int
  ps :: "ptr list"
  sizes :: "int list"
  fastbin :: "ptr list"
  hs :: "ptr list"

text \<open>The allocator record together with the chunk memory and the system-call trace.\<close>

record proc = mpool +
  mem :: heap
  os_log :: "syscall list"

text \<open>
  What the environment answers during one call of \<^verbatim>\<open>mpool_alloc\<close>: the value
  \<^verbatim>\<open>mmap\<close> returns at each of its three call sites (\<^verbatim>\<open>MAP_FAILED\<close> when it
  fails), and whether each \<^verbatim>\<open>realloc\<close> of \<^verbatim>\<open>add_pool\<close> returns \<^verbatim>\<open>NULL\<close>.
\<close>

record env =
  mmap_direct :: ptr
  mmap_lazy :: ptr
  mmap_grow :: ptr
  nps_null :: bool
  nsizes_null :: bool

section \<open>Page source\<close>

text \<open>A fresh mapping is zero-filled.\<close>

definition zero_fill :: "ptr \<Rightarrow> int \<Rightarrow> heap \<Rightarrow> heap" where
  "zero_fill p n h = (\<lambda>a. if uint (a - p) < n then 0 else h a)"

text \<open>\<^verbatim>\<open>get_mmap\<close>: \<open>r\<close> is what \<^verbatim>\<open>mmap\<close> returned.\<close>

definition get_mmap :: "ptr \<Rightarrow> int \<Rightarrow> proc \<Rightarrow> ptr \<times> proc" where
  "get_mmap r sz st =
     (if r = MAP_FAILED then (0, st)
      else (r, st\<lparr>mem := zero_fill r sz (mem st), os_log := os_log st @ [Mmap r sz]\<rparr>))"

text \<open>\<^verbatim>\<open>iceil2\<close>, on \<^verbatim>\<open>unsigned int\<close>.\<close>

definition iceil2 :: "32 word \<Rightarrow> 32 word" where
  "iceil2 x0 =
     (let x = x0 - 1;
          x = x OR drop_bit 1 x;
          x = x OR drop_bit 2 x;
          x = x OR drop_bit 4 x;
          x = x OR drop_bit 8 x;
          x = x OR drop_bit 16 x
      in x + 1)"

section \<open>Arenas\<close>

text \<open>
  The loop of \<^verbatim>\<open>mpool_new_pool\<close>. \<open>off\<close> and \<open>lst\<close> are the source's \<^verbatim>\<open>o\<close> and
  \<^verbatim>\<open>last\<close>; \<^verbatim>\<open>i * sz\<close> is computed in \<^verbatim>\<open>unsigned int\<close>.
\<close>

function new_pool_loop ::
  "nat \<Rightarrow> nat \<Rightarrow> nat \<Rightarrow> ptr \<Rightarrow> nat \<Rightarrow> ptr \<Rightarrow> heap \<Rightarrow> fault + (nat \<times> heap)" where
  "new_pool_loop i lim sz p off lst h =
     (if i < lim then
        (if lst \<noteq> 0 \<and> lst \<noteq> load64 h (p + of_nat (PTR_SIZE * off)) then Inl Assert_failed
         else
           let off' = unat (word_of_nat i * word_of_nat sz :: 32 word) div PTR_SIZE;
               h' = store64 h (p + of_nat (PTR_SIZE * off'))
                      (p + of_nat (PTR_SIZE * (off' + sz div PTR_SIZE)))
           in new_pool_loop (i + 1) lim sz p off' (load64 h' (p + of_nat (PTR_SIZE * off'))) h')
      else Inr (off, h))"
  by pat_completeness auto
termination
  by (relation "measure (\<lambda>(i, lim, sz, p, off, lst, h). lim - i)") auto

declare new_pool_loop.simps [simp del]

text \<open>\<^verbatim>\<open>mpool_new_pool\<close>: \<open>r\<close> is what \<^verbatim>\<open>mmap\<close> returned. Result 0 is \<^verbatim>\<open>NULL\<close>.\<close>

definition mpool_new_pool :: "ptr \<Rightarrow> nat \<Rightarrow> nat \<Rightarrow> proc \<Rightarrow> fault + (ptr \<times> proc)" where
  "mpool_new_pool r sz total_sz st =
     (case get_mmap r (int (if sz > total_sz then sz else total_sz)) st of
        (p, st1) \<Rightarrow>
          if p = 0 then Inr (0, st1)
          else if \<not> sz > PTR_SIZE then Inl Assert_failed
          else
            (case new_pool_loop 0 (total_sz div sz) sz p 0 0 (mem st1) of
               Inl f \<Rightarrow> Inl f
             | Inr (off, h) \<Rightarrow>
                 Inr (p, st1\<lparr>mem := store64 h (p + of_nat (PTR_SIZE * off)) 0\<rparr>)))"

section \<open>Pool registry\<close>

text \<open>
  \<^verbatim>\<open>realloc\<close> to \<open>n\<close> elements keeps the old contents; the model fills the new tail,
  which the source never reads before writing, with 0.
\<close>

definition regrow :: "'a::zero list \<Rightarrow> nat \<Rightarrow> 'a list" where
  "regrow xs n = take n xs @ replicate (n - length xs) 0"

text \<open>Lines 81 to 84 of \<^verbatim>\<open>add_pool\<close>.\<close>

definition add_pool_store :: "proc \<Rightarrow> ptr \<Rightarrow> int \<Rightarrow> fault + (int \<times> proc)" where
  "add_pool_store st p sz =
     (if 0 \<le> cnt st \<and> nat (cnt st) < length (ps st) \<and> nat (cnt st) < length (sizes st) then
        Inr (0, st\<lparr>ps := (ps st)[nat (cnt st) := p],
                   sizes := (sizes st)[nat (cnt st) := sz],
                   cnt := cnt st + 1\<rparr>)
      else Inl Out_of_bounds)"

text \<open>
  \<^verbatim>\<open>add_pool\<close>. The pointer array is resized to \<^verbatim>\<open>pal * sizeof(void **)\<close> bytes, the
  size array to \<^verbatim>\<open>pal * sizeof(int *)\<close> bytes, which is room for \<open>2 * pal\<close> ints. When a
  \<^verbatim>\<open>realloc\<close> fails the function returns \<open>-1\<close> with the fields as they are at that
  point. (A block that the other \<^verbatim>\<open>realloc\<close> did resize may have moved, which leaves
  the field pointing to it stale; the lists keep the contents and do not show that.)
\<close>

definition add_pool :: "env \<Rightarrow> proc \<Rightarrow> ptr \<Rightarrow> int \<Rightarrow> fault + (int \<times> proc)" where
  "add_pool e st p sz =
     (if p = 0 \<or> \<not> sz > 0 then Inl Assert_failed
      else if cnt st = pal st then
        (let st1 = st\<lparr>pal := pal st * 2\<rparr> in
         if nps_null e \<or> nsizes_null e then Inr (- 1, st1)
         else add_pool_store
                (st1\<lparr>sizes := regrow (sizes st1) (nat (pal st1 * int PTR_SIZE div 4)),
                     ps := regrow (ps st1) (nat (pal st1))\<rparr>) p sz)
      else add_pool_store st p sz)"

section \<open>Initialisation\<close>

text \<open>
  \<^verbatim>\<open>mpool_init\<close>. \<open>ok\<close> says whether all three \<^verbatim>\<open>malloc\<close> calls succeeded, \<open>h\<close> is
  the chunk memory of the process at that time. \<^verbatim>\<open>1 << n\<close> on \<^verbatim>\<open>int\<close> is defined
  for \<open>0 \<le> n \<le> 30\<close> only.
\<close>

definition mpool_init :: "bool \<Rightarrow> heap \<Rightarrow> int \<Rightarrow> int \<Rightarrow> fault + proc option" where
  "mpool_init ok h min2 max2 =
     (if \<not> min2 \<ge> 3 then Inl Assert_failed
      else
        let n = max2 - min2 + 1;
            palen = sint (iceil2 (word_of_int n))
        in if \<not> n > 0 then Inl Assert_failed
           else if \<not> ok then Inr None
           else if min2 > 30 \<or> max2 > 30 then Inl Int_overflow
           else Inr (Some \<lparr>cnt = n, pal = palen,
                            min_pool = 2 ^ nat min2, max_pool = 2 ^ nat max2,
                            ps = replicate (nat palen) 0,
                            sizes = replicate (nat palen) 0,
                            fastbin = replicate (nat FASTBIN_SIZE) 0,
                            hs = replicate (nat n) 0,
                            mem = h, os_log = []\<rparr>))"

section \<open>Allocation\<close>

text \<open>
  The class search of \<^verbatim>\<open>mpool_alloc\<close> (lines 155 to 160): \<open>i\<close> counts the doublings of
  \<open>p\<close>, and the loop leaves at the first \<open>p\<close> that is greater than \<open>sz\<close>. The loop has
  no other exit, so it is a partial function: \<open>None\<close> means it never returns. \<open>p\<close> is
  an unbounded integer here; in an allocator made by \<^verbatim>\<open>mpool_init\<close> the search is only
  started below \<open>max_pool\<close> and stops at \<open>max_pool\<close> at the latest (the bound on
  the index is proved with the class search), within \<^verbatim>\<open>int\<close>.
\<close>

partial_function (option) class_loop :: "nat \<Rightarrow> int \<Rightarrow> int \<Rightarrow> (nat \<times> int) option" where
  "class_loop i p sz = (if p > sz then Some (i, p) else class_loop (i + 1) (p * 2) sz)"

declare class_loop.simps [code]

text \<open>Lines 146 to 151: the request is mapped on its own and its header holds \<open>sz\<close>.\<close>

definition alloc_direct :: "env \<Rightarrow> proc \<Rightarrow> int \<Rightarrow> fault + (ptr \<times> proc)" where
  "alloc_direct e st sz =
     (case get_mmap (mmap_direct e) sz st of
        (cur, st1) \<Rightarrow>
          if cur = 0 then Inr (0, st1)
          else Inr (cur + 4, st1\<lparr>mem := store32 (mem st1) cur (word_of_int sz)\<rparr>))"

text \<open>Lines 198 to 201, the label \<^verbatim>\<open>_done\<close>.\<close>

definition alloc_done :: "proc \<Rightarrow> ptr \<Rightarrow> int \<Rightarrow> fault + (ptr \<times> proc)" where
  "alloc_done st cur szceil =
     Inr (cur + 4, st\<lparr>mem := store32 (mem st) cur (word_of_int szceil)\<rparr>)"

text \<open>
  Lines 171 to 180: the head of class \<open>i\<close>, after mapping the class's first arena when
  the head is \<^verbatim>\<open>NULL\<close>. The result 0 stands for the \<^verbatim>\<open>return NULL\<close> of line 175.
\<close>

definition alloc_head :: "nat \<Rightarrow> env \<Rightarrow> proc \<Rightarrow> nat \<Rightarrow> int \<Rightarrow> fault + (ptr \<times> proc)" where
  "alloc_head pg e st i szceil =
     (if \<not> i < length (hs st) then Inl Out_of_bounds
      else if hs st ! i \<noteq> 0 then Inr (hs st ! i, st)
      else
        (case mpool_new_pool (mmap_lazy e) (nat szceil) pg st of
           Inl f \<Rightarrow> Inl f
         | Inr (pool, st1) \<Rightarrow>
             if pool = 0 then Inr (0, st1)
             else if \<not> (i < length (ps st1) \<and> i < length (sizes st1)) then Inl Out_of_bounds
             else Inr (pool, st1\<lparr>ps := (ps st1)[i := pool],
                                  hs := (hs st1)[i := pool],
                                  sizes := (sizes st1)[i := szceil]\<rparr>)))"

text \<open>
  Lines 182 to 190: when the link of \<open>cur\<close> is \<^verbatim>\<open>NULL\<close>, a new arena is mapped,
  linked behind \<open>cur\<close> and handed to \<^verbatim>\<open>add_pool\<close>. The result \<open>False\<close> stands for
  the two \<^verbatim>\<open>return NULL\<close> of this block.
\<close>

definition alloc_grow :: "nat \<Rightarrow> env \<Rightarrow> proc \<Rightarrow> ptr \<Rightarrow> int \<Rightarrow> fault + (bool \<times> proc)" where
  "alloc_grow pg e st cur szceil =
     (if load64 (mem st) cur \<noteq> 0 then Inr (True, st)
      else
        (case mpool_new_pool (mmap_grow e) (nat szceil) pg st of
           Inl f \<Rightarrow> Inl f
         | Inr (np, st1) \<Rightarrow>
             if np = 0 then Inr (False, st1)
             else
               let st2 = st1\<lparr>mem := store64 (mem st1) cur np\<rparr>
               in if load64 (mem st2) cur = 0 then Inl Assert_failed
                  else
                    (case add_pool e st2 np szceil of
                       Inl f \<Rightarrow> Inl f
                     | Inr (rc, st3) \<Rightarrow> Inr (\<not> rc < 0, st3))))"

text \<open>Lines 171 to 201: a chunk of class \<open>i\<close> from the class's free list.\<close>

definition alloc_pool :: "nat \<Rightarrow> env \<Rightarrow> proc \<Rightarrow> nat \<Rightarrow> int \<Rightarrow> fault + (ptr \<times> proc)" where
  "alloc_pool pg e st i szceil =
     (case alloc_head pg e st i szceil of
        Inl f \<Rightarrow> Inl f
      | Inr (cur, st1) \<Rightarrow>
          if cur = 0 then Inr (0, st1)
          else
            (case alloc_grow pg e st1 cur szceil of
               Inl f \<Rightarrow> Inl f
             | Inr (grown, st2) \<Rightarrow>
                 if \<not> grown then Inr (0, st2)
                 else if \<not> load64 (mem st2) cur > of_nat pg then Inl Assert_failed
                 else alloc_done (st2\<lparr>hs := (hs st2)[i := load64 (mem st2) cur]\<rparr>) cur szceil))"

text \<open>Lines 163 to 169: whether the fastbin serves class \<open>i\<close>.\<close>

definition fastbin_hit :: "proc \<Rightarrow> nat \<Rightarrow> bool" where
  "fastbin_hit st i = (int i < FASTBIN_SIZE \<and> i < length (fastbin st) \<and> fastbin st ! i \<noteq> 0)"

text \<open>
  \<^verbatim>\<open>mpool_alloc\<close>. \<open>pg\<close> is \<^verbatim>\<open>PAGE_SIZE\<close>. The result pointer 0 is \<^verbatim>\<open>NULL\<close>.
\<close>

definition mpool_alloc :: "nat \<Rightarrow> env \<Rightarrow> proc \<Rightarrow> int \<Rightarrow> fault + (ptr \<times> proc)" where
  "mpool_alloc pg e st sz0 =
     (if sz0 + HEADER_SIZE \<ge> 2 ^ 31 then Inl Int_overflow
      else
        let sz = sz0 + HEADER_SIZE
        in if sz \<ge> max_pool st then alloc_direct e st sz
           else
             (case class_loop 0 (min_pool st) sz of
                None \<Rightarrow> Inl Diverges
              | Some (i, szceil) \<Rightarrow>
                  if \<not> szceil > 0 then Inl Assert_failed
                  else if int i < FASTBIN_SIZE \<and> \<not> i < length (fastbin st) then Inl Out_of_bounds
                  else if fastbin_hit st i then
                    alloc_done (st\<lparr>fastbin := (fastbin st)[i := load64 (mem st) (fastbin st ! i)]\<rparr>)
                      (fastbin st ! i) szceil
                  else alloc_pool pg e st i szceil))"

section \<open>Release\<close>

text \<open>
  \<^verbatim>\<open>mpool_repool\<close>, as \<^verbatim>\<open>mempool.c\<close> defines it (two parameters). \<^verbatim>\<open>>> 4\<close> on the
  \<^verbatim>\<open>int\<close> header is the arithmetic shift. The outcome of \<^verbatim>\<open>munmap\<close> only decides
  whether a message is printed.
\<close>

definition mpool_repool :: "proc \<Rightarrow> ptr \<Rightarrow> fault + proc" where
  "mpool_repool st p0 =
     (let p = p0 - 4;
          chunk_size = sint (load32 (mem st) p)
      in if chunk_size > max_pool st then
           Inr (st\<lparr>os_log := os_log st @ [Munmap p chunk_size]\<rparr>)
         else
           let i = chunk_size div 16 - 1
           in if i < FASTBIN_SIZE then
                (if \<not> (0 \<le> i \<and> nat i < length (fastbin st)) then Inl Out_of_bounds
                 else
                   let st1 = st\<lparr>mem := store64 (mem st) p (fastbin st ! nat i)\<rparr>
                   in if p = 0 then Inl Assert_failed
                      else Inr (st1\<lparr>fastbin := (fastbin st1)[nat i := p]\<rparr>))
              else
                (if \<not> 0 < length (hs st) then Inl Out_of_bounds
                 else
                   let st1 = st\<lparr>mem := store64 (mem st) p (hs st ! 0)\<rparr>
                   in if p = 0 then Inl Assert_failed
                      else Inr (st1\<lparr>hs := (hs st1)[0 := p]\<rparr>)))"

section \<open>Teardown\<close>

text \<open>The loop of \<^verbatim>\<open>mpool_free\<close>; each \<^verbatim>\<open>munmap\<close> is appended to the trace.\<close>

function free_loop :: "nat \<Rightarrow> int \<Rightarrow> proc \<Rightarrow> fault + proc" where
  "free_loop pg i st =
     (if i < cnt st then
        (if \<not> (0 \<le> i \<and> nat i < length (ps st)) then Inl Out_of_bounds
         else if ps st ! nat i = 0 then free_loop pg (i + 1) st
         else if \<not> nat i < length (sizes st) then Inl Out_of_bounds
         else
           let sz = sizes st ! nat i
           in if \<not> sz > 0 then Inl Assert_failed
              else free_loop pg (i + 1)
                     (st\<lparr>os_log := os_log st @
                          [Munmap (ps st ! nat i) (if sz < int pg then int pg else sz)]\<rparr>))
      else Inr st)"
  by pat_completeness auto
termination
  by (relation "measure (\<lambda>(pg, i, st). nat (cnt st - i))") auto

declare free_loop.simps [simp del]

text \<open>\<^verbatim>\<open>mpool_free\<close>: the trace once the allocator is gone.\<close>

definition mpool_free :: "nat \<Rightarrow> proc \<Rightarrow> fault + syscall list" where
  "mpool_free pg st = (case free_loop pg 0 st of Inl f \<Rightarrow> Inl f | Inr st1 \<Rightarrow> Inr (os_log st1))"

section \<open>Callers\<close>

text \<open>
  A caller is a sequence of \<^verbatim>\<open>mpool_alloc\<close> and \<^verbatim>\<open>mpool_repool\<close> calls on one
  allocator; each allocation comes with the answers of the environment during that call.
  The sequence stops at the first call that does not return.
\<close>

datatype call = Alloc env int | Repool ptr

fun run :: "nat \<Rightarrow> call list \<Rightarrow> proc \<Rightarrow> fault + proc" where
  "run pg [] st = Inr st"
| "run pg (Alloc e sz # cs) st =
     (case mpool_alloc pg e st sz of Inl f \<Rightarrow> Inl f | Inr (r, st1) \<Rightarrow> run pg cs st1)"
| "run pg (Repool p # cs) st =
     (case mpool_repool st p of Inl f \<Rightarrow> Inl f | Inr st1 \<Rightarrow> run pg cs st1)"

text \<open>
  Two environments for the scenarios below: one that grants every request, and one that
  grants every mapping but no \<^verbatim>\<open>realloc\<close>. The three mappings are 64 KiB apart.
\<close>

definition os_grants :: env where
  "os_grants = \<lparr>mmap_direct = 0x30000, mmap_lazy = 0x10000, mmap_grow = 0x20000,
                 nps_null = False, nsizes_null = False\<rparr>"

definition os_no_realloc :: env where
  "os_no_realloc = \<lparr>mmap_direct = 0x30000, mmap_lazy = 0x10000, mmap_grow = 0x20000,
                     nps_null = True, nsizes_null = True\<rparr>"

section \<open>Free-list heads across a call\<close>

text \<open>
  The relation between the allocator before and after a call that the proofs about the
  free-list heads use: the array of heads keeps its length and no head that was set
  becomes \<^verbatim>\<open>NULL\<close>.
\<close>

definition heads_kept :: "proc \<Rightarrow> proc \<Rightarrow> bool" where
  "heads_kept st st1 \<longleftrightarrow>
     length (hs st1) = length (hs st) \<and> (\<forall>j<length (hs st). hs st ! j \<noteq> 0 \<longrightarrow> hs st1 ! j \<noteq> 0)"

section \<open>Closed form of a fresh arena\<close>

text \<open>
  What one iteration of the loop of \<^verbatim>\<open>mpool_new_pool\<close> computes and writes, and the
  memory the whole function leaves behind. These are proved below to be what
  \<open>new_pool_loop\<close> and \<open>mpool_new_pool\<close> produce.
\<close>

definition chunk_off :: "nat \<Rightarrow> nat \<Rightarrow> nat" where
  "chunk_off sz k = unat (word_of_nat k * word_of_nat sz :: 32 word) div PTR_SIZE"

definition link_chunk :: "ptr \<Rightarrow> nat \<Rightarrow> nat \<Rightarrow> heap \<Rightarrow> heap" where
  "link_chunk p sz k h =
     store64 h (p + of_nat (PTR_SIZE * chunk_off sz k))
       (p + of_nat (PTR_SIZE * (chunk_off sz k + sz div PTR_SIZE)))"

definition arena_mem :: "ptr \<Rightarrow> nat \<Rightarrow> nat \<Rightarrow> heap \<Rightarrow> heap" where
  "arena_mem r sz total_sz h =
     store64
       (fold (link_chunk r sz) [0..<total_sz div sz]
          (zero_fill r (int (if sz > total_sz then sz else total_sz)) h))
       (r + of_nat (PTR_SIZE * (if 0 < total_sz div sz then chunk_off sz (total_sz div sz - 1) else 0)))
       0"

section \<open>Memory cells\<close>

lemma word_cat_halves:
  "(word_cat (ucast (drop_bit 32 v) :: 32 word) (ucast v :: 32 word) :: 64 word) = v"
  by (rule bit_word_eqI) (auto simp add: bit_word_cat_iff bit_ucast_iff bit_drop_bit_eq)

lemma load64_store64_same: "load64 (store64 h a v) a = v"
  by (simp add: load64_def store64_def word_cat_halves)

lemma load64_store64_other:
  "a \<noteq> b \<Longrightarrow> a \<noteq> b + 4 \<Longrightarrow> a + 4 \<noteq> b \<Longrightarrow> load64 (store64 h b v) a = load64 h a"
  by (simp add: load64_def store64_def)

lemma load64_store32_other:
  "a \<noteq> b \<Longrightarrow> a + 4 \<noteq> b \<Longrightarrow> load64 (store32 h b v) a = load64 h a"
  by (simp add: load64_def store32_def)

lemma load32_store32_same: "load32 (store32 h a v) a = v"
  by (simp add: load32_def store32_def)

lemma load32_store64_same: "load32 (store64 h a v) a = ucast v"
  by (simp add: load32_def store64_def)


section \<open>The arena loop\<close>

text \<open>
  The \<^verbatim>\<open>assert(last == pool[o])\<close> of the loop compares a value with the cell it was
  just read from, so it never fails, and the loop is a fold over the chunk numbers.
\<close>

lemma new_pool_loop_step:
  "i < lim \<Longrightarrow> lst = 0 \<or> lst = load64 h (p + of_nat (PTR_SIZE * off)) \<Longrightarrow>
   new_pool_loop i lim sz p off lst h =
     new_pool_loop (i + 1) lim sz p (chunk_off sz i)
       (load64 (link_chunk p sz i h) (p + of_nat (PTR_SIZE * chunk_off sz i))) (link_chunk p sz i h)"
  apply (subst new_pool_loop.simps)
  apply (simp only: chunk_off_def link_chunk_def Let_def if_True)
  apply auto
  done

lemma new_pool_loop_stop:
  "\<not> i < lim \<Longrightarrow> new_pool_loop i lim sz p off lst h = Inr (off, h)"
  by (subst new_pool_loop.simps) simp


lemma new_pool_loop_fold:
  "lst = 0 \<or> lst = load64 h (p + of_nat (PTR_SIZE * off)) \<Longrightarrow>
   new_pool_loop i lim sz p off lst h =
     Inr (if i < lim then chunk_off sz (lim - 1) else off, fold (link_chunk p sz) [i..<lim] h)"
proof (induction "lim - i" arbitrary: i off lst h)
  case 0
  then have "\<not> i < lim" by simp
  then show ?case by (simp add: new_pool_loop_stop)
next
  case (Suc n)
  then have lt: "i < lim" and n: "n = lim - (i + 1)" by simp_all
  let ?h = "link_chunk p sz i h"
  let ?off = "chunk_off sz i"
  have inv: "load64 ?h (p + of_nat (PTR_SIZE * ?off)) = 0 \<or>
             load64 ?h (p + of_nat (PTR_SIZE * ?off)) = load64 ?h (p + of_nat (PTR_SIZE * ?off))"
    by simp
  have ih: "new_pool_loop (i + 1) lim sz p ?off (load64 ?h (p + of_nat (PTR_SIZE * ?off))) ?h =
            Inr (if i + 1 < lim then chunk_off sz (lim - 1) else ?off,
                 fold (link_chunk p sz) [i + 1..<lim] ?h)"
    by (rule Suc.hyps(1) [OF n inv])
  have last_eq: "(if i + 1 < lim then chunk_off sz (lim - 1) else ?off) = chunk_off sz (lim - 1)"
  proof (cases "i + 1 < lim")
    case True then show ?thesis by simp
  next
    case False
    with lt have "lim - 1 = i" by simp
    then show ?thesis by simp
  qed
  have upt: "[i..<lim] = i # [i + 1..<lim]"
    using lt by (simp add: upt_conv_Cons)
  have "new_pool_loop i lim sz p off lst h =
        Inr (chunk_off sz (lim - 1), fold (link_chunk p sz) [i + 1..<lim] ?h)"
    by (simp only: new_pool_loop_step [OF lt Suc.prems] ih last_eq)
  then show ?case
    using lt by (simp only: upt fold_Cons comp_apply if_True)
qed


lemma mpool_new_pool_mapped:
  assumes "r \<noteq> MAP_FAILED" "r \<noteq> 0" "PTR_SIZE < sz"
  shows "mpool_new_pool r sz total_sz st =
           Inr (r, st\<lparr>mem := arena_mem r sz total_sz (mem st),
                       os_log := os_log st @ [Mmap r (int (if sz > total_sz then sz else total_sz))]\<rparr>)"
  using assms
  by (simp add: mpool_new_pool_def get_mmap_def new_pool_loop_fold arena_mem_def)

lemma chunk_off_bytes:
  assumes "8 dvd sz" "k * sz < 2 ^ 32"
  shows "PTR_SIZE * chunk_off sz k = k * sz"
proof -
  have "(word_of_nat k * word_of_nat sz :: 32 word) = word_of_nat (k * sz)"
    by simp
  then have "unat (word_of_nat k * word_of_nat sz :: 32 word) = k * sz"
    using assms(2) by (simp add: unat_of_nat take_bit_nat_eq_self del: of_nat_mult)
  moreover have "8 dvd k * sz"
    using assms(1) by simp
  ultimately show ?thesis
    by (simp add: chunk_off_def PTR_SIZE_def)
qed

lemma word64_of_nat_neq:
  assumes "m < 2 ^ 64" "n < 2 ^ 64" "m \<noteq> n"
  shows "(word_of_nat m :: 64 word) \<noteq> word_of_nat n"
  using assms by (simp add: word_of_nat_eq_iff take_bit_nat_eq_self)

lemma chunk_addr_distinct:
  assumes "8 dvd sz" "j * sz < 2 ^ 32" "k * sz < 2 ^ 32" "j \<noteq> k" "0 < sz"
  shows "p + word_of_nat (j * sz) \<noteq> (p + word_of_nat (k * sz) :: 64 word)"
    and "p + word_of_nat (j * sz) + 4 \<noteq> (p + word_of_nat (k * sz) :: 64 word)"
    and "p + word_of_nat (j * sz) \<noteq> (p + word_of_nat (k * sz) + 4 :: 64 word)"
proof -
  have lt: "j * sz < 2 ^ 64" "k * sz < 2 ^ 64" "j * sz + 4 < 2 ^ 64" "k * sz + 4 < 2 ^ 64"
    using assms(2,3) by simp_all
  have ne: "j * sz \<noteq> k * sz"
    using assms(4,5) by simp
  obtain m where m: "sz = 8 * m"
    using assms(1) by (auto elim: dvdE)
  have js: "j * sz = 8 * (j * m)" and ks: "k * sz = 8 * (k * m)"
    by (simp_all add: m)
  have "(j * sz + 4) mod 8 = 4" "(k * sz) mod 8 = 0" "(k * sz + 4) mod 8 = 4" "(j * sz) mod 8 = 0"
    unfolding js ks by simp_all
  then have ne4: "j * sz + 4 \<noteq> k * sz" "j * sz \<noteq> k * sz + 4"
    by (metis zero_neq_numeral)+
  have "(word_of_nat (j * sz) :: 64 word) \<noteq> word_of_nat (k * sz)"
    by (rule word64_of_nat_neq [OF lt(1,2) ne])
  then show "p + word_of_nat (j * sz) \<noteq> (p + word_of_nat (k * sz) :: 64 word)"
    by simp
  have "(word_of_nat (j * sz + 4) :: 64 word) \<noteq> word_of_nat (k * sz)"
    by (rule word64_of_nat_neq [OF lt(3,2) ne4(1)])
  then show "p + word_of_nat (j * sz) + 4 \<noteq> (p + word_of_nat (k * sz) :: 64 word)"
    by (simp add: add.assoc del: of_nat_mult)
  have "(word_of_nat (j * sz) :: 64 word) \<noteq> word_of_nat (k * sz + 4)"
    by (rule word64_of_nat_neq [OF lt(1,4) ne4(2)])
  then show "p + word_of_nat (j * sz) \<noteq> (p + word_of_nat (k * sz) + 4 :: 64 word)"
    by (simp add: add.assoc del: of_nat_mult)
qed


lemma link_chunk_bytes:
  assumes "8 dvd sz" "k * sz < 2 ^ 32"
  shows "link_chunk p sz k h = store64 h (p + word_of_nat (k * sz)) (p + word_of_nat (k * sz + sz))"
proof -
  have a: "PTR_SIZE * chunk_off sz k = k * sz"
    by (rule chunk_off_bytes [OF assms])
  have "PTR_SIZE * (sz div PTR_SIZE) = sz"
    using assms(1) by (simp add: PTR_SIZE_def)
  then have b: "PTR_SIZE * (chunk_off sz k + sz div PTR_SIZE) = k * sz + sz"
    using a by (simp add: distrib_left)
  show ?thesis
    unfolding link_chunk_def a b ..
qed

lemma load64_fold_link:
  assumes sz: "8 dvd sz" "0 < sz" and k: "k * sz < 2 ^ 32" and n: "n * sz \<le> 2 ^ 32"
  shows "load64 (fold (link_chunk p sz) [0..<n] h) (p + word_of_nat (k * sz)) =
           (if k < n then p + word_of_nat (k * sz + sz) else load64 h (p + word_of_nat (k * sz)))"
  using n
proof (induction n)
  case 0
  show ?case by simp
next
  case (Suc n)
  have nb: "n * sz < 2 ^ 32" and nle: "n * sz \<le> 2 ^ 32"
    using Suc.prems sz(2) by simp_all
  have unfold: "fold (link_chunk p sz) [0..<Suc n] h =
                store64 (fold (link_chunk p sz) [0..<n] h)
                  (p + word_of_nat (n * sz)) (p + word_of_nat (n * sz + sz))"
    by (simp add: link_chunk_bytes [OF sz(1) nb] del: of_nat_add of_nat_mult)
  show ?case
  proof (cases "k = n")
    case True
    then show ?thesis
      unfolding unfold by (simp add: load64_store64_same del: of_nat_add of_nat_mult)
  next
    case False
    note d = chunk_addr_distinct [OF sz(1) k nb False sz(2), of p]
    have "load64 (fold (link_chunk p sz) [0..<Suc n] h) (p + word_of_nat (k * sz)) =
          load64 (fold (link_chunk p sz) [0..<n] h) (p + word_of_nat (k * sz))"
      unfolding unfold by (rule load64_store64_other [OF d(1) d(3) d(2)])
    then show ?thesis
      using Suc.IH [OF nle] False by (simp del: of_nat_add of_nat_mult)
  qed
qed

lemma arena_mem_link:
  assumes sz: "8 dvd sz" "0 < sz" and tot: "total_sz < 2 ^ 32" and k: "k < total_sz div sz"
  shows "load64 (arena_mem r sz total_sz h) (r + word_of_nat (k * sz)) =
           (if k + 1 < total_sz div sz then r + word_of_nat (k * sz + sz) else 0)"
proof -
  let ?lim = "total_sz div sz"
  let ?h0 = "zero_fill r (int (if sz > total_sz then sz else total_sz)) h"
  have lim_pos: "0 < ?lim" using k by simp
  have limb: "?lim * sz \<le> 2 ^ 32"
  proof -
    have "?lim * sz \<le> total_sz" by simp
    also have "total_sz \<le> 2 ^ 32" using tot by simp
    finally show ?thesis .
  qed
  have kb: "k * sz < 2 ^ 32"
  proof -
    have "k * sz < ?lim * sz" using k sz(2) by simp
    also note limb
    finally show ?thesis .
  qed
  have lb: "(?lim - 1) * sz < 2 ^ 32"
  proof -
    have "(?lim - 1) * sz < ?lim * sz" using lim_pos sz(2) by simp
    also note limb
    finally show ?thesis .
  qed
  have am: "arena_mem r sz total_sz h =
            store64 (fold (link_chunk r sz) [0..<?lim] ?h0) (r + word_of_nat ((?lim - 1) * sz)) 0"
    by (simp only: arena_mem_def lim_pos if_True chunk_off_bytes [OF sz(1) lb])
  show ?thesis
  proof (cases "k + 1 < ?lim")
    case False
    with k have "k = ?lim - 1" by simp
    then show ?thesis
      using False unfolding am by (simp add: load64_store64_same del: of_nat_add of_nat_mult)
  next
    case True
    then have ne: "k \<noteq> ?lim - 1" by simp
    note d = chunk_addr_distinct [OF sz(1) kb lb ne sz(2), of r]
    have "load64 (arena_mem r sz total_sz h) (r + word_of_nat (k * sz)) =
          load64 (fold (link_chunk r sz) [0..<?lim] ?h0) (r + word_of_nat (k * sz))"
      unfolding am by (rule load64_store64_other [OF d(1) d(3) d(2)])
    then show ?thesis
      using True k by (simp add: load64_fold_link [OF sz kb limb] del: of_nat_add of_nat_mult)
  qed
qed

section \<open>The class search\<close>

text \<open>
  Started from a positive \<open>p\<close>, the search returns after \<open>k\<close> doublings, where \<open>k\<close>
  is the first exponent with \<open>sz < p * 2 ^ k\<close>.
\<close>

lemma class_loop_returns:
  "0 < p \<Longrightarrow>
   \<exists>k. class_loop i p sz = Some (i + k, p * 2 ^ k) \<and> sz < p * 2 ^ k \<and> (\<forall>j<k. p * 2 ^ j \<le> sz)"
proof (induction "nat (sz + 1 - p)" arbitrary: i p rule: less_induct)
  case less
  show ?case
  proof (cases "sz < p")
    case True
    then have "class_loop i p sz = Some (i + 0, p * 2 ^ 0)"
      by (subst class_loop.simps) simp
    with True show ?thesis
      by (intro exI [of _ 0]) simp
  next
    case False
    have smaller: "nat (sz + 1 - p * 2) < nat (sz + 1 - p)"
      using False less.prems by simp
    have pos: "0 < p * 2"
      using less.prems by simp
    obtain k where k: "class_loop (i + 1) (p * 2) sz = Some (i + 1 + k, p * 2 * 2 ^ k)"
        "sz < p * 2 * 2 ^ k" "\<forall>j<k. p * 2 * 2 ^ j \<le> sz"
      using less.hyps [OF smaller pos, of "i + 1"] by blast
    have step: "class_loop i p sz = class_loop (i + 1) (p * 2) sz"
      using False by (subst class_loop.simps) simp
    have below: "\<forall>j<Suc k. p * 2 ^ j \<le> sz"
    proof (intro allI impI)
      fix j assume "j < Suc k"
      show "p * 2 ^ j \<le> sz"
      proof (cases j)
        case 0
        then show ?thesis using False by simp
      next
        case (Suc j')
        with \<open>j < Suc k\<close> have "j' < k" by simp
        with k(3) have "p * 2 * 2 ^ j' \<le> sz" by blast
        then show ?thesis using Suc by (simp add: mult.assoc)
      qed
    qed
    show ?thesis
      using step k(1,2) below
      by (intro exI [of _ "Suc k"]) (simp add: mult.assoc)
  qed
qed

lemma class_loop_least:
  assumes "0 < p"
  obtains k where "class_loop 0 p sz = Some (k, p * 2 ^ k)" "sz < p * 2 ^ k"
    "\<And>j. sz < p * 2 ^ j \<Longrightarrow> k \<le> j"
proof -
  obtain k where k: "class_loop 0 p sz = Some (0 + k, p * 2 ^ k)" "sz < p * 2 ^ k"
      "\<forall>j<k. p * 2 ^ j \<le> sz"
    using class_loop_returns [OF assms, of 0 sz] by blast
  have "k \<le> j" if "sz < p * 2 ^ j" for j
  proof (rule ccontr)
    assume "\<not> k \<le> j"
    then have "j < k" by simp
    with k(3) have "p * 2 ^ j \<le> sz" by blast
    with that show False by simp
  qed
  with k(1,2) show thesis
    by (intro that [of k]) simp_all
qed


text \<open>
  C4, as the code has it. The loop of \<^verbatim>\<open>mpool_alloc\<close> leaves at the first class
  with \<^verbatim>\<open>p > sz\<close>: for every request whose size with the header added is below
  \<open>maxp\<close>, the search returns, and the class it returns is the smallest
  \<open>minp * 2 ^ i\<close> that is strictly greater than the header-adjusted request; its index
  is at most the index of \<open>maxp\<close>.
\<close>

theorem class_strictly_above_request:
  assumes "0 < minp" and "maxp = minp * 2 ^ n" and "sz0 + HEADER_SIZE < maxp"
  shows "\<exists>i. class_loop 0 minp (sz0 + HEADER_SIZE) = Some (i, minp * 2 ^ i) \<and>
             sz0 + HEADER_SIZE < minp * 2 ^ i \<and>
             (\<forall>k. sz0 + HEADER_SIZE < minp * 2 ^ k \<longrightarrow> i \<le> k) \<and>
             i \<le> n"
proof -
  obtain i where i: "class_loop 0 minp (sz0 + HEADER_SIZE) = Some (i, minp * 2 ^ i)"
      "sz0 + HEADER_SIZE < minp * 2 ^ i"
      "\<And>j. sz0 + HEADER_SIZE < minp * 2 ^ j \<Longrightarrow> i \<le> j"
    using class_loop_least [OF assms(1)] by blast
  have "i \<le> n"
    using i(3) [of n] assms(2,3) by simp
  with i show ?thesis by blast
qed

theorem class_strictly_above_request_witness:
  "(0::int) < 8 \<and> (4096::int) = 8 * 2 ^ 9 \<and> 10 + HEADER_SIZE < (4096::int) \<and>
   class_loop 0 8 (10 + HEADER_SIZE) = Some (1, 16)"
proof -
  have h: "(0::int) < 8" "(4096::int) = 8 * 2 ^ 9" "10 + HEADER_SIZE < (4096::int)"
    by (simp_all add: HEADER_SIZE_def)
  obtain i where i: "class_loop 0 8 (10 + HEADER_SIZE) = Some (i, 8 * 2 ^ i)"
      "10 + HEADER_SIZE < (8::int) * 2 ^ i"
      "\<forall>k. 10 + HEADER_SIZE < (8::int) * 2 ^ k \<longrightarrow> i \<le> k"
    using class_strictly_above_request [OF h] by blast
  have "10 + HEADER_SIZE < (8::int) * 2 ^ 1"
    by (simp add: HEADER_SIZE_def)
  with i(3) have "i \<le> 1" by blast
  moreover have "i \<noteq> 0"
  proof
    assume "i = 0"
    with i(2) show False by (simp add: HEADER_SIZE_def)
  qed
  ultimately have "i = 1" by simp
  with i(1) h show ?thesis by simp
qed

text \<open>
  C4 as stated fails: after \<^verbatim>\<open>mpool_init(3, 12)\<close> a request of 12 bytes is 16 bytes with
  its header, exactly the byte size of class 1, and the search returns class 2 of 32
  bytes.
\<close>

theorem class_exact_fit_counterexample:
  "class_loop 0 8 (12 + HEADER_SIZE) = Some (2, 32) \<and> 12 + HEADER_SIZE = (8::int) * 2 ^ 1"
  by (simp add: class_loop.simps HEADER_SIZE_def)

text \<open>
  C10. Class monotonicity: for requests \<open>s1 \<le> s2\<close> that both get a class (the larger
  one is below \<open>maxp\<close> with its header), the search returns for both, and neither the
  class size nor the class index chosen for \<open>s1\<close> exceeds the one chosen for \<open>s2\<close>.
\<close>

theorem class_monotone:
  assumes "0 < minp" and "s1 \<le> s2" and "s2 + HEADER_SIZE < maxp"
  shows "\<exists>i1 c1 i2 c2.
           class_loop 0 minp (s1 + HEADER_SIZE) = Some (i1, c1) \<and>
           class_loop 0 minp (s2 + HEADER_SIZE) = Some (i2, c2) \<and>
           c1 \<le> c2 \<and> i1 \<le> i2"
proof -
  obtain i1 where i1: "class_loop 0 minp (s1 + HEADER_SIZE) = Some (i1, minp * 2 ^ i1)"
      "\<And>j. s1 + HEADER_SIZE < minp * 2 ^ j \<Longrightarrow> i1 \<le> j"
    using class_loop_least [OF assms(1)] by blast
  obtain i2 where i2: "class_loop 0 minp (s2 + HEADER_SIZE) = Some (i2, minp * 2 ^ i2)"
      "s2 + HEADER_SIZE < minp * 2 ^ i2"
    using class_loop_least [OF assms(1)] by blast
  have "s1 + HEADER_SIZE < minp * 2 ^ i2"
    using i2(2) assms(2) by simp
  then have le: "i1 \<le> i2" by (rule i1(2))
  then have "(2::int) ^ i1 \<le> 2 ^ i2"
    by (simp add: power_increasing)
  then have "minp * 2 ^ i1 \<le> minp * 2 ^ i2"
    using assms(1) by (simp add: mult_left_mono)
  with i1(1) i2(1) le show ?thesis by blast
qed

theorem class_monotone_witness:
  "(0::int) < 8 \<and> (10::int) \<le> 100 \<and> 100 + HEADER_SIZE < (4096::int) \<and>
   class_loop 0 8 (10 + HEADER_SIZE) = Some (1, 16) \<and>
   class_loop 0 8 (100 + HEADER_SIZE) = Some (4, 128) \<and> (16::int) \<le> 128"
proof -
  have h: "(0::int) < 8" "(10::int) \<le> 100" "100 + HEADER_SIZE < (4096::int)"
    by (simp_all add: HEADER_SIZE_def)
  have "class_loop 0 8 (10 + HEADER_SIZE) = Some (1, 16)"
    "class_loop 0 8 (100 + HEADER_SIZE) = Some (4, 128)"
    by (simp_all add: class_loop.simps HEADER_SIZE_def)
  then show ?thesis
    using h class_monotone [OF h] by simp
qed

section \<open>What each block of the allocation leaves unchanged\<close>

lemma get_mmap_result:
  assumes "get_mmap r sz st = (p, st1)"
  shows "hs st1 = hs st"
    and "p \<noteq> 0 \<Longrightarrow> p = r \<and> os_log st1 = os_log st @ [Mmap r sz]"
  using assms by (auto simp add: get_mmap_def split: if_splits)

lemma mpool_new_pool_result:
  assumes "mpool_new_pool r sz total_sz st = Inr (p, st1)"
  shows "hs st1 = hs st"
    and "p \<noteq> 0 \<Longrightarrow>
         p = r \<and> os_log st1 = os_log st @ [Mmap r (int (if sz > total_sz then sz else total_sz))]"
proof -
  obtain q st' where g: "get_mmap r (int (if sz > total_sz then sz else total_sz)) st = (q, st')"
    by (cases "get_mmap r (int (if sz > total_sz then sz else total_sz)) st")
  note gm = get_mmap_result [OF g]
  from assms g have r: "q = 0 \<and> p = 0 \<and> st1 = st' \<or>
      q \<noteq> 0 \<and> p = q \<and> (\<exists>m. st1 = st'\<lparr>mem := m\<rparr>)"
    by (auto simp add: mpool_new_pool_def split: if_splits sum.splits prod.splits)
  from r gm(1) show "hs st1 = hs st" by auto
  show "p = r \<and> os_log st1 = os_log st @ [Mmap r (int (if sz > total_sz then sz else total_sz))]"
    if "p \<noteq> 0"
    using r gm(2) that by auto
qed

lemma add_pool_store_result:
  assumes "add_pool_store st p sz = Inr (rc, st1)"
  shows "hs st1 = hs st \<and> mem st1 = mem st \<and> os_log st1 = os_log st"
  using assms by (auto simp add: add_pool_store_def split: if_splits)

lemma add_pool_result:
  assumes "add_pool e st p sz = Inr (rc, st1)"
  shows "hs st1 = hs st \<and> mem st1 = mem st \<and> os_log st1 = os_log st"
  using assms
  by (auto simp add: add_pool_def Let_def split: if_splits dest!: add_pool_store_result)

lemma alloc_done_result:
  assumes "alloc_done st cur c = Inr (r, st1)"
  shows "hs st1 = hs st \<and> os_log st1 = os_log st \<and> r = cur + 4"
  using assms by (auto simp add: alloc_done_def)

lemma alloc_direct_result:
  assumes "alloc_direct e st sz = Inr (r, st1)"
  shows "hs st1 = hs st"
  using assms
  by (auto simp add: alloc_direct_def split: prod.splits if_splits dest: get_mmap_result(1))

lemma alloc_grow_result:
  assumes "alloc_grow pg e st cur c = Inr (g, st1)"
  shows "hs st1 = hs st"
    and "g \<Longrightarrow> load64 (mem st1) cur \<noteq> 0"
    and "g \<Longrightarrow> load64 (mem st) cur = 0 \<Longrightarrow>
         load64 (mem st1) cur = mmap_grow e \<and>
         Mmap (mmap_grow e) (int (if nat c > pg then nat c else pg)) \<in> set (os_log st1)"
proof -
  show "hs st1 = hs st"
    using assms
    by (auto simp add: alloc_grow_def Let_def split: if_splits sum.splits prod.splits
        dest!: add_pool_result mpool_new_pool_result(1))
next
  assume g
  show "load64 (mem st1) cur \<noteq> 0"
  proof (cases "load64 (mem st) cur = 0")
    case False
    with assms show ?thesis by (simp add: alloc_grow_def)
  next
    case True
    with assms \<open>g\<close> obtain np sta stb rc where
      np: "mpool_new_pool (mmap_grow e) (nat c) pg st = Inr (np, sta)" "np \<noteq> 0"
      and ap: "add_pool e (sta\<lparr>mem := store64 (mem sta) cur np\<rparr>) np c = Inr (rc, stb)"
      and st1: "st1 = stb"
      by (auto simp add: alloc_grow_def Let_def split: if_splits sum.splits prod.splits)
    from add_pool_result [OF ap] have "mem stb = store64 (mem sta) cur np" by simp
    with np(2) st1 show ?thesis by (simp add: load64_store64_same)
  qed
next
  assume g and z: "load64 (mem st) cur = 0"
  with assms obtain np sta stb rc where
    np: "mpool_new_pool (mmap_grow e) (nat c) pg st = Inr (np, sta)" "np \<noteq> 0"
    and ap: "add_pool e (sta\<lparr>mem := store64 (mem sta) cur np\<rparr>) np c = Inr (rc, stb)"
    and st1: "st1 = stb"
    by (auto simp add: alloc_grow_def Let_def split: if_splits sum.splits prod.splits)
  from add_pool_result [OF ap]
  have m: "mem stb = store64 (mem sta) cur np" and l: "os_log stb = os_log sta" by simp_all
  from mpool_new_pool_result(2) [OF np]
  have "np = mmap_grow e"
    and "os_log sta = os_log st @ [Mmap (mmap_grow e) (int (if nat c > pg then nat c else pg))]"
    by simp_all
  with m l st1
  show "load64 (mem st1) cur = mmap_grow e \<and>
        Mmap (mmap_grow e) (int (if nat c > pg then nat c else pg)) \<in> set (os_log st1)"
    by (simp add: load64_store64_same)
qed


lemma heads_kept_same: "hs st1 = hs st \<Longrightarrow> heads_kept st st1"
  by (simp add: heads_kept_def)

lemma heads_kept_trans: "heads_kept st st1 \<Longrightarrow> heads_kept st1 st2 \<Longrightarrow> heads_kept st st2"
  by (simp add: heads_kept_def)

lemma heads_kept_update:
  assumes "hs st1 = (hs st)[i := v]" and "v \<noteq> 0"
  shows "heads_kept st st1"
proof -
  have "(hs st)[i := v] ! j \<noteq> 0" if "j < length (hs st)" "hs st ! j \<noteq> 0" for j
  proof (cases "i = j")
    case True
    with that(1) assms(2) show ?thesis by simp
  next
    case False
    with that(2) show ?thesis by simp
  qed
  with assms(1) show ?thesis
    by (simp add: heads_kept_def)
qed

lemma alloc_head_result:
  assumes "alloc_head pg e st i c = Inr (cur, st1)"
  shows "heads_kept st st1"
    and "cur \<noteq> 0 \<Longrightarrow> i < length (hs st1) \<and> hs st1 ! i = cur"
    and "hs st ! i \<noteq> 0 \<Longrightarrow> st1 = st \<and> cur = hs st ! i"
proof -
  have inb: "i < length (hs st)"
    using assms by (auto simp add: alloc_head_def split: if_splits)
  show "hs st ! i \<noteq> 0 \<Longrightarrow> st1 = st \<and> cur = hs st ! i"
    using assms inb by (auto simp add: alloc_head_def)
  consider (set) "hs st ! i \<noteq> 0" "st1 = st" "cur = hs st ! i"
    | (null) sta where "hs st ! i = 0" "mpool_new_pool (mmap_lazy e) (nat c) pg st = Inr (0, sta)"
        "cur = 0" "st1 = sta"
    | (lazy) sta where "hs st ! i = 0" "mpool_new_pool (mmap_lazy e) (nat c) pg st = Inr (cur, sta)"
        "cur \<noteq> 0" "hs st1 = (hs sta)[i := cur]"
    using assms inb
    by (auto simp add: alloc_head_def split: if_splits sum.splits prod.splits)
  then show "heads_kept st st1"
  proof cases
    case set
    then show ?thesis by (simp add: heads_kept_same)
  next
    case null
    then show ?thesis
      using mpool_new_pool_result(1) [OF null(2)] by (simp add: heads_kept_same)
  next
    case lazy
    then show ?thesis
      using mpool_new_pool_result(1) [OF lazy(2)] by (simp add: heads_kept_update)
  qed
  assume nz: "cur \<noteq> 0"
  consider (set) "hs st ! i \<noteq> 0" "st1 = st" "cur = hs st ! i"
    | (lazy) sta where "mpool_new_pool (mmap_lazy e) (nat c) pg st = Inr (cur, sta)"
        "hs st1 = (hs sta)[i := cur]"
    using assms inb nz
    by (auto simp add: alloc_head_def split: if_splits sum.splits prod.splits)
  then show "i < length (hs st1) \<and> hs st1 ! i = cur"
  proof cases
    case set
    with inb show ?thesis by simp
  next
    case lazy
    then show ?thesis
      using mpool_new_pool_result(1) [OF lazy(1)] inb by simp
  qed
qed

lemma alloc_pool_result:
  assumes "alloc_pool pg e st i c = Inr (r, st1)"
  shows "heads_kept st st1"
    and "r \<noteq> 0 \<Longrightarrow> i < length (hs st1) \<and> hs st1 ! i \<noteq> 0"
    and "r \<noteq> 0 \<Longrightarrow> hs st ! i \<noteq> 0 \<Longrightarrow> load64 (mem st) (hs st ! i) = 0 \<Longrightarrow>
         hs st1 ! i = mmap_grow e \<and>
         Mmap (mmap_grow e) (int (if nat c > pg then nat c else pg)) \<in> set (os_log st1)"
proof -
  obtain cur sta where h: "alloc_head pg e st i c = Inr (cur, sta)"
    using assms by (auto simp add: alloc_pool_def split: sum.splits)
  note hr = alloc_head_result [OF h]
  consider (null) "cur = 0" "r = 0" "st1 = sta"
    | (nogrow) stb where "cur \<noteq> 0" "alloc_grow pg e sta cur c = Inr (False, stb)" "r = 0" "st1 = stb"
    | (popped) stb where "cur \<noteq> 0" "alloc_grow pg e sta cur c = Inr (True, stb)"
        "alloc_done (stb\<lparr>hs := (hs stb)[i := load64 (mem stb) cur]\<rparr>) cur c = Inr (r, st1)"
    using assms h
    by (auto simp add: alloc_pool_def split: sum.splits prod.splits if_splits)
  then have all: "heads_kept st st1 \<and>
      (r \<noteq> 0 \<longrightarrow> i < length (hs st1) \<and> hs st1 ! i \<noteq> 0) \<and>
      (r \<noteq> 0 \<and> hs st ! i \<noteq> 0 \<and> load64 (mem st) (hs st ! i) = 0 \<longrightarrow>
         hs st1 ! i = mmap_grow e \<and>
         Mmap (mmap_grow e) (int (if nat c > pg then nat c else pg)) \<in> set (os_log st1))"
  proof cases
    case null
    with hr(1) show ?thesis by simp
  next
    case nogrow
    have "heads_kept sta stb"
      using alloc_grow_result(1) [OF nogrow(2)] by (simp add: heads_kept_same)
    with hr(1) nogrow show ?thesis by (auto intro: heads_kept_trans)
  next
    case popped
    note gr = alloc_grow_result [OF popped(2)]
    have nz: "load64 (mem stb) cur \<noteq> 0"
      using gr(2) by simp
    have hs1: "hs st1 = (hs sta)[i := load64 (mem stb) cur]" and log: "os_log st1 = os_log stb"
      using alloc_done_result [OF popped(3)] gr(1) by simp_all
    have inb: "i < length (hs sta)"
      using hr(2) [OF popped(1)] by simp
    have "heads_kept sta st1"
      using hs1 nz by (rule heads_kept_update)
    with hr(1) have k: "heads_kept st st1"
      by (rule heads_kept_trans)
    have head: "i < length (hs st1) \<and> hs st1 ! i \<noteq> 0"
      using hs1 nz inb by simp
    have grow: "hs st1 ! i = mmap_grow e \<and>
         Mmap (mmap_grow e) (int (if nat c > pg then nat c else pg)) \<in> set (os_log st1)"
      if "hs st ! i \<noteq> 0" "load64 (mem st) (hs st ! i) = 0"
    proof -
      from hr(3) [OF that(1)] have "sta = st" "cur = hs st ! i" by simp_all
      with that(2) have "load64 (mem sta) cur = 0" by simp
      from gr(3) [OF _ this] hs1 inb log show ?thesis by simp
    qed
    from k head grow show ?thesis by blast
  qed
  from all show "heads_kept st st1" by blast
  from all show "r \<noteq> 0 \<Longrightarrow> i < length (hs st1) \<and> hs st1 ! i \<noteq> 0" by blast
  from all show "r \<noteq> 0 \<Longrightarrow> hs st ! i \<noteq> 0 \<Longrightarrow> load64 (mem st) (hs st ! i) = 0 \<Longrightarrow>
         hs st1 ! i = mmap_grow e \<and>
         Mmap (mmap_grow e) (int (if nat c > pg then nat c else pg)) \<in> set (os_log st1)"
    by blast
qed


lemma mpool_alloc_heads_kept:
  assumes "mpool_alloc pg e st sz0 = Inr (r, st1)"
  shows "heads_kept st st1"
proof (cases "sz0 + HEADER_SIZE \<ge> max_pool st")
  case True
  with assms have "alloc_direct e st (sz0 + HEADER_SIZE) = Inr (r, st1)"
    by (simp add: mpool_alloc_def Let_def split: if_splits)
  then show ?thesis
    by (simp add: alloc_direct_result heads_kept_same)
next
  case False
  with assms obtain i c where ic: "class_loop 0 (min_pool st) (sz0 + HEADER_SIZE) = Some (i, c)"
    by (auto simp add: mpool_alloc_def Let_def split: if_splits option.splits)
  show ?thesis
  proof (cases "fastbin_hit st i")
    case True
    with assms False ic have
      "alloc_done (st\<lparr>fastbin := (fastbin st)[i := load64 (mem st) (fastbin st ! i)]\<rparr>)
         (fastbin st ! i) c = Inr (r, st1)"
      by (simp add: mpool_alloc_def Let_def split: if_splits)
    from alloc_done_result [OF this] show ?thesis
      by (simp add: heads_kept_same)
  next
    case miss: False
    with assms False ic have "alloc_pool pg e st i c = Inr (r, st1)"
      by (simp add: mpool_alloc_def Let_def split: if_splits)
    then show ?thesis by (rule alloc_pool_result(1))
  qed
qed

lemma mpool_alloc_from_pool:
  assumes "mpool_alloc pg e st sz0 = Inr (r, st1)"
    and "sz0 + HEADER_SIZE < max_pool st"
    and "class_loop 0 (min_pool st) (sz0 + HEADER_SIZE) = Some (i, c)"
    and "\<not> fastbin_hit st i"
  shows "alloc_pool pg e st i c = Inr (r, st1)"
  using assms by (simp add: mpool_alloc_def Let_def split: if_splits)

lemma mpool_repool_heads_kept:
  assumes "mpool_repool st p = Inr st1"
  shows "heads_kept st st1"
proof -
  consider (unmap) "hs st1 = hs st"
    | (push) "hs st1 = (hs st)[0 := p - 4]" "p - 4 \<noteq> 0"
    using assms
    by (auto simp add: mpool_repool_def Let_def split: if_splits)
  then show ?thesis
    by cases (simp_all add: heads_kept_same heads_kept_update)
qed

lemma run_heads_kept:
  "run pg cs st = Inr st1 \<Longrightarrow> heads_kept st st1"
proof (induction cs arbitrary: st)
  case Nil
  then show ?case by (simp add: heads_kept_same)
next
  case (Cons c cs)
  show ?case
  proof (cases c)
    case (Alloc e sz)
    with Cons.prems obtain r sta where a: "mpool_alloc pg e st sz = Inr (r, sta)"
      and rest: "run pg cs sta = Inr st1"
      by (auto split: sum.splits)
    from mpool_alloc_heads_kept [OF a] Cons.IH [OF rest] show ?thesis
      by (rule heads_kept_trans)
  next
    case (Repool p)
    with Cons.prems obtain sta where a: "mpool_repool st p = Inr sta"
      and rest: "run pg cs sta = Inr st1"
      by (auto split: sum.splits)
    from mpool_repool_heads_kept [OF a] Cons.IH [OF rest] show ?thesis
      by (rule heads_kept_trans)
  qed
qed

lemma heads_keptD:
  "heads_kept st st1 \<Longrightarrow> i < length (hs st) \<Longrightarrow> hs st ! i \<noteq> 0 \<Longrightarrow>
   i < length (hs st1) \<and> hs st1 ! i \<noteq> 0"
  by (simp add: heads_kept_def)

section \<open>Evaluating calls on concrete allocators\<close>

text \<open>
  The rules that run a call on a concrete allocator. A fresh arena stays folded as
  \<open>arena_mem\<close>; its link fields are read through \<open>arena_mem_link\<close>.
\<close>

lemmas alloc_defs = mpool_alloc_def alloc_pool_def alloc_head_def alloc_grow_def alloc_done_def
  alloc_direct_def fastbin_hit_def get_mmap_def MAP_FAILED_def HEADER_SIZE_def FASTBIN_SIZE_def
  PTR_SIZE_def class_loop.simps Let_def os_grants_def os_no_realloc_def add_pool_def
  add_pool_store_def regrow_def numeral_2_eq_2 [symmetric] mpool_repool_def mpool_new_pool_mapped

lemmas heap_simps = load64_store64_same load64_store64_other load64_store32_other
  load32_store32_same load32_store64_same

lemma iceil2_values: "iceil2 1 = 1" "iceil2 2 = 2" "iceil2 9 = 16" "iceil2 10 = 16"
  by (simp_all add: iceil2_def Let_def)

lemma init_3_3:
  "mpool_init True h 3 3 =
     Inr (Some \<lparr>cnt = 1, pal = 1, min_pool = 8, max_pool = 8,
                ps = [0], sizes = [0],
                fastbin = replicate 7 0, hs = [0],
                mem = h, os_log = []\<rparr>)"
  by (simp add: mpool_init_def iceil2_values FASTBIN_SIZE_def)

lemma init_3_12:
  "mpool_init True h 3 12 =
     Inr (Some \<lparr>cnt = 10, pal = 16, min_pool = 8, max_pool = 4096,
                ps = replicate 16 0, sizes = replicate 16 0,
                fastbin = replicate 7 0, hs = replicate 10 0,
                mem = h, os_log = []\<rparr>)"
  by (simp add: mpool_init_def iceil2_values FASTBIN_SIZE_def)

lemma init_4_12:
  "mpool_init True h 4 12 =
     Inr (Some \<lparr>cnt = 9, pal = 16, min_pool = 16, max_pool = 4096,
                ps = replicate 16 0, sizes = replicate 16 0,
                fastbin = replicate 7 0, hs = replicate 9 0,
                mem = h, os_log = []\<rparr>)"
  by (simp add: mpool_init_def iceil2_values FASTBIN_SIZE_def)

lemma init_11_12:
  "mpool_init True h 11 12 =
     Inr (Some \<lparr>cnt = 2, pal = 2, min_pool = 2048, max_pool = 4096,
                ps = [0, 0], sizes = [0, 0],
                fastbin = [0, 0, 0, 0, 0, 0, 0], hs = [0, 0],
                mem = h, os_log = []\<rparr>)"
  by (simp add: mpool_init_def iceil2_values FASTBIN_SIZE_def numeral_eq_Suc)

lemma init_12_12:
  "mpool_init True h 12 12 =
     Inr (Some \<lparr>cnt = 1, pal = 1, min_pool = 4096, max_pool = 4096,
                ps = [0], sizes = [0],
                fastbin = replicate 7 0, hs = [0],
                mem = h, os_log = []\<rparr>)"
  by (simp add: mpool_init_def iceil2_values FASTBIN_SIZE_def)

lemma arena16_links:
  "load64 (arena_mem 0x10000 16 4096 h) 0x10000 = 0x10010"
  "load64 (arena_mem 0x10000 16 4096 h) 0x10010 = 0x10020"
  using arena_mem_link [of 16 4096 0 "0x10000" h] arena_mem_link [of 16 4096 1 "0x10000" h]
  by simp_all

lemma arena64_links:
  "load64 (arena_mem 0x10000 64 4096 h) 0x10000 = 0x10040"
  using arena_mem_link [of 64 4096 0 "0x10000" h]
  by simp_all

lemma arena2048_links:
  "load64 (arena_mem 0x10000 2048 4096 h) 0x10000 = 0x10800"
  "load64 (arena_mem 0x10000 2048 4096 h) 0x10800 = 0"
  using arena_mem_link [of 2048 4096 0 "0x10000" h] arena_mem_link [of 2048 4096 1 "0x10000" h]
  by simp_all

lemma arena4096_links:
  "load64 (arena_mem 0x10000 4096 4096 h) 0x10000 = 0"
  "load64 (arena_mem 0x20000 4096 4096 h) 0x20000 = 0"
  using arena_mem_link [of 4096 4096 0 "0x10000" h] arena_mem_link [of 4096 4096 0 "0x20000" h]
  by simp_all

section \<open>The free-list head of a class\<close>

text \<open>
  C9. Let a successful \<^verbatim>\<open>mpool_alloc\<close> of class \<open>i\<close> take its chunk from the class's
  free list (the fastbin did not serve it), which sets the head \<open>hs[i]\<close>. Then after
  any sequence of further calls that return, and after any later successful allocation
  of class \<open>i\<close>, the head is not \<^verbatim>\<open>NULL\<close>. In that later allocation, when the fastbin
  does not serve the request and the link field of the head chunk is \<^verbatim>\<open>NULL\<close>, a new
  arena is mapped (the \<^verbatim>\<open>mmap\<close> is in the trace) and becomes the head; when the link is
  set, the head moves on to it and nothing is mapped.
\<close>

theorem free_list_head_stays_set:
  assumes first: "mpool_alloc pg e1 st0 sz1 = Inr (r1, st1)" "r1 \<noteq> 0"
    and cls1: "sz1 + HEADER_SIZE < max_pool st0"
      "class_loop 0 (min_pool st0) (sz1 + HEADER_SIZE) = Some (i, c1)"
    and miss1: "fastbin_hit st0 i = False"
    and calls: "run pg cs st1 = Inr st2"
    and again: "mpool_alloc pg e2 st2 sz2 = Inr (r2, st3)" "r2 \<noteq> 0"
    and cls2: "sz2 + HEADER_SIZE < max_pool st2"
      "class_loop 0 (min_pool st2) (sz2 + HEADER_SIZE) = Some (i, c2)"
  shows "hs st1 ! i \<noteq> 0 \<and> hs st2 ! i \<noteq> 0 \<and> hs st3 ! i \<noteq> 0 \<and>
         (if fastbin_hit st2 i then hs st3 = hs st2
          else if load64 (mem st2) (hs st2 ! i) = 0
            then hs st3 ! i = mmap_grow e2 \<and>
                 Mmap (mmap_grow e2) (int (if nat c2 > pg then nat c2 else pg)) \<in> set (os_log st3)
            else hs st3 ! i = load64 (mem st2) (hs st2 ! i) \<and> os_log st3 = os_log st2)"
proof -
  have p1: "alloc_pool pg e1 st0 i c1 = Inr (r1, st1)"
    using first(1) cls1 miss1 by (simp add: mpool_alloc_from_pool)
  have h1: "i < length (hs st1) \<and> hs st1 ! i \<noteq> 0"
    using alloc_pool_result(2) [OF p1 first(2)] .
  have h2: "i < length (hs st2) \<and> hs st2 ! i \<noteq> 0"
    using heads_keptD [OF run_heads_kept [OF calls]] h1 by simp
  have h3: "hs st3 ! i \<noteq> 0"
    using heads_keptD [OF mpool_alloc_heads_kept [OF again(1)]] h2 by simp
  have path: "if fastbin_hit st2 i then hs st3 = hs st2
          else if load64 (mem st2) (hs st2 ! i) = 0
            then hs st3 ! i = mmap_grow e2 \<and>
                 Mmap (mmap_grow e2) (int (if nat c2 > pg then nat c2 else pg)) \<in> set (os_log st3)
            else hs st3 ! i = load64 (mem st2) (hs st2 ! i) \<and> os_log st3 = os_log st2"
  proof (cases "fastbin_hit st2 i")
    case True
    with again(1) cls2 have
      "alloc_done (st2\<lparr>fastbin := (fastbin st2)[i := load64 (mem st2) (fastbin st2 ! i)]\<rparr>)
         (fastbin st2 ! i) c2 = Inr (r2, st3)"
      by (simp add: mpool_alloc_def Let_def split: if_splits)
    from alloc_done_result [OF this] True show ?thesis by simp
  next
    case False
    have p2: "alloc_pool pg e2 st2 i c2 = Inr (r2, st3)"
      using again(1) cls2 False by (simp add: mpool_alloc_from_pool)
    show ?thesis
    proof (cases "load64 (mem st2) (hs st2 ! i) = 0")
      case True
      with alloc_pool_result(3) [OF p2 again(2)] h2 False show ?thesis by simp
    next
      case link: False
      have "alloc_head pg e2 st2 i c2 = Inr (hs st2 ! i, st2)"
        using h2 by (simp add: alloc_head_def)
      moreover have "alloc_grow pg e2 st2 (hs st2 ! i) c2 = Inr (True, st2)"
        using link by (simp add: alloc_grow_def)
      ultimately have
        "alloc_done (st2\<lparr>hs := (hs st2)[i := load64 (mem st2) (hs st2 ! i)]\<rparr>) (hs st2 ! i) c2 =
           Inr (r2, st3)"
        using p2 h2 by (simp add: alloc_pool_def split: if_splits)
      from alloc_done_result [OF this] h2 link False show ?thesis by simp
    qed
  qed
  from h1 h2 h3 path show ?thesis by simp
qed


text \<open>
  The theorem at work after \<^verbatim>\<open>mpool_init(11, 12)\<close> with 4096-byte pages: the first
  100-byte allocation maps the arena of the 2048-byte class at \<open>0x10000\<close>, the chunk is
  released and allocated again, and the next allocation finds the link of the head
  chunk \<open>0x10800\<close> empty and maps a second arena at \<open>0x20000\<close>.
\<close>

theorem free_list_head_stays_set_witness:
  "\<exists>st0 st1 st2 st3.
     mpool_init True (\<lambda>_. 0) 11 12 = Inr (Some st0) \<and>
     mpool_alloc 4096 os_grants st0 100 = Inr (0x10004, st1) \<and>
     run 4096 [Repool 0x10004, Alloc os_grants 100] st1 = Inr st2 \<and>
     mpool_alloc 4096 os_grants st2 100 = Inr (0x10804, st3) \<and>
     class_loop 0 (min_pool st0) (100 + HEADER_SIZE) = Some (0, 2048) \<and>
     class_loop 0 (min_pool st2) (100 + HEADER_SIZE) = Some (0, 2048) \<and>
     100 + HEADER_SIZE < max_pool st0 \<and> 100 + HEADER_SIZE < max_pool st2 \<and>
     fastbin_hit st0 0 = False \<and> fastbin_hit st2 0 = False \<and>
     hs st0 ! 0 = 0 \<and> hs st1 ! 0 = 0x10800 \<and> hs st2 ! 0 = 0x10800 \<and>
     load64 (mem st2) (hs st2 ! 0) = 0 \<and>
     hs st3 ! 0 = 0x20000 \<and> Mmap 0x20000 4096 \<in> set (os_log st3)"
proof -
  have "\<exists>st0 st1 st2 st3.
     mpool_init True (\<lambda>_. 0) 11 12 = Inr (Some st0) \<and>
     mpool_alloc 4096 os_grants st0 100 = Inr (0x10004, st1) \<and>
     run 4096 [Repool 0x10004, Alloc os_grants 100] st1 = Inr st2 \<and>
     mpool_alloc 4096 os_grants st2 100 = Inr (0x10804, st3) \<and>
     class_loop 0 (min_pool st0) (100 + HEADER_SIZE) = Some (0, 2048) \<and>
     class_loop 0 (min_pool st2) (100 + HEADER_SIZE) = Some (0, 2048) \<and>
     100 + HEADER_SIZE < max_pool st0 \<and> 100 + HEADER_SIZE < max_pool st2 \<and>
     fastbin_hit st0 0 = False \<and> fastbin_hit st2 0 = False \<and>
     hs st0 ! 0 = 0 \<and> hs st1 ! 0 = 0x10800 \<and> hs st2 ! 0 = 0x10800 \<and>
     load64 (mem st2) (hs st2 ! 0) = 0"
    by (simp add: init_11_12 alloc_defs heap_simps arena2048_links)
  then obtain st0 st1 st2 st3 where
    i: "mpool_init True (\<lambda>_. 0) 11 12 = Inr (Some st0)"
    and a1: "mpool_alloc 4096 os_grants st0 100 = Inr (0x10004, st1)"
    and r: "run 4096 [Repool 0x10004, Alloc os_grants 100] st1 = Inr st2"
    and a2: "mpool_alloc 4096 os_grants st2 100 = Inr (0x10804, st3)"
    and c1: "class_loop 0 (min_pool st0) (100 + HEADER_SIZE) = Some (0, 2048)"
    and c2: "class_loop 0 (min_pool st2) (100 + HEADER_SIZE) = Some (0, 2048)"
    and b1: "100 + HEADER_SIZE < max_pool st0" and b2: "100 + HEADER_SIZE < max_pool st2"
    and m1: "fastbin_hit st0 0 = False" and m2: "fastbin_hit st2 0 = False"
    and h: "hs st0 ! 0 = 0" "hs st1 ! 0 = 0x10800" "hs st2 ! 0 = 0x10800"
    and l: "load64 (mem st2) (hs st2 ! 0) = 0"
    by blast
  have nz: "(0x10004 :: ptr) \<noteq> 0" "(0x10804 :: ptr) \<noteq> 0"
    by simp_all
  from free_list_head_stays_set [OF a1 nz(1) b1 c1 m1 r a2 nz(2) b2 c2] m2 l
  have "hs st3 ! 0 = 0x20000 \<and> Mmap 0x20000 4096 \<in> set (os_log st3)"
    by (simp add: os_grants_def)
  with i a1 r a2 c1 c2 b1 b2 m1 m2 h l show ?thesis
    by blast
qed


section \<open>Release and the class of a chunk\<close>

text \<open>
  C1. The claim is that \<^verbatim>\<open>mpool_repool\<close> files a chunk under the class index that
  \<^verbatim>\<open>mpool_alloc\<close> computes for the chunk's size. The code at the claim's own scenario:
  after \<^verbatim>\<open>mpool_init(3, 12)\<close>, \<^verbatim>\<open>mpool_alloc(10)\<close> serves the request from class 1
  (16 bytes) and writes 16 into the header; \<^verbatim>\<open>mpool_repool\<close> of that pointer computes
  \<^verbatim>\<open>(16 >> 4) - 1 = 0\<close> and pushes the chunk onto \<open>fastbin[0]\<close>, the slot that
  \<^verbatim>\<open>mpool_alloc\<close> consults for class 0. The slot and the free list of class 1 do not
  receive it.
\<close>

theorem repool_files_chunk_under_other_class:
  "(case mpool_init True (\<lambda>_. 0) 3 12 of
      Inr (Some st0) \<Rightarrow>
        (case mpool_alloc 4096 os_grants st0 10 of
           Inr (p, st1) \<Rightarrow>
             p = 0x10004 \<and> sint (load32 (mem st1) (p - 4)) = 16 \<and>
             class_loop 0 (min_pool st1) (10 + HEADER_SIZE) = Some (1, 16) \<and>
             (case mpool_repool st1 p of
                Inr st2 \<Rightarrow>
                  fastbin st2 ! 0 = 0x10000 \<and> fastbin st2 ! 1 = 0 \<and> hs st2 ! 1 = 0x10010
              | Inl f \<Rightarrow> False)
         | Inl f \<Rightarrow> False)
    | _ \<Rightarrow> False)"
  by (simp add: init_3_12 alloc_defs heap_simps arena16_links)

text \<open>
  C2. The claim is that allocating, releasing and allocating again in the same class
  returns a pointer handed out before, and in particular that after
  \<^verbatim>\<open>mpool_init(3, 12)\<close> the sequence \<^verbatim>\<open>mpool_alloc(10)\<close>, \<^verbatim>\<open>mpool_repool\<close>,
  \<^verbatim>\<open>mpool_alloc(10)\<close> returns the same pointer twice. The code returns \<open>0x10004\<close>, the
  first chunk of the arena, and then \<open>0x10014\<close>, the second chunk, which was never
  handed out: the released chunk sits in \<open>fastbin[0]\<close>, where class 1 does not look.
\<close>

theorem round_trip_returns_other_pointer:
  "(case mpool_init True (\<lambda>_. 0) 3 12 of
      Inr (Some st0) \<Rightarrow>
        (case mpool_alloc 4096 os_grants st0 10 of
           Inr (p1, st1) \<Rightarrow>
             (case mpool_repool st1 p1 of
                Inr st2 \<Rightarrow>
                  (case mpool_alloc 4096 os_grants st2 10 of
                     Inr (p2, st3) \<Rightarrow>
                       p1 = 0x10004 \<and> p2 = 0x10014 \<and> fastbin st3 ! 0 = 0x10000
                   | Inl f \<Rightarrow> False)
              | Inl f \<Rightarrow> False)
         | Inl f \<Rightarrow> False)
    | _ \<Rightarrow> False)"
  by (simp add: init_3_12 alloc_defs heap_simps arena16_links)

text \<open>
  From a header of 16 on, the index \<^verbatim>\<open>(chunk_size >> 4) - 1\<close> is not negative, and
  \<^verbatim>\<open>mpool_repool\<close> stays inside both arrays. A header below 16 needs an 8-byte chunk.
  The arena of an 8-byte class cannot be carved, \<^verbatim>\<open>assert(sz > sizeof(void *))\<close> stops
  it, so after \<^verbatim>\<open>mpool_init(3, 12)\<close> no class chunk has such a header; a directly mapped
  chunk has one when \<open>max_pool\<close> is 8.
\<close>

lemma repool_in_bounds_from_16:
  assumes "length (fastbin st) = 7" "0 < length (hs st)" "p - 4 \<noteq> 0"
    and "16 \<le> sint (load32 (mem st) (p - 4))"
  shows "\<exists>st1. mpool_repool st p = Inr st1"
  using assms by (auto simp add: mpool_repool_def Let_def FASTBIN_SIZE_def)

lemma min_class_alloc_aborts:
  "(case mpool_init True (\<lambda>_. 0) 3 12 of
      Inr (Some st0) \<Rightarrow> mpool_alloc 4096 os_grants st0 1 = Inl Assert_failed
    | _ \<Rightarrow> False)"
  by (simp add: init_3_12 alloc_defs mpool_new_pool_def)
text \<open>
  C3. The claim is that the fastbin index of \<^verbatim>\<open>mpool_repool\<close> is always within the
  array, also for an 8-byte chunk. The code: after \<^verbatim>\<open>mpool_init(3, 3)\<close> the request
  \<^verbatim>\<open>mpool_alloc(4)\<close> is 8 bytes with its header and gets the header 8;
  \<^verbatim>\<open>mpool_repool\<close> of that pointer computes \<^verbatim>\<open>(8 >> 4) - 1 = -1\<close>, passes the test
  \<^verbatim>\<open>i < FASTBIN_SIZE\<close> and accesses \<open>fastbin[-1]\<close>.
\<close>

theorem repool_min_chunk_out_of_bounds:
  "(case mpool_init True (\<lambda>_. 0) 3 3 of
      Inr (Some st0) \<Rightarrow>
        (case mpool_alloc 4096 os_grants st0 4 of
           Inr (p, st1) \<Rightarrow>
             p = 0x30004 \<and> sint (load32 (mem st1) (p - 4)) = 8 \<and>
             sint (load32 (mem st1) (p - 4)) \<le> max_pool st1 \<and>
             mpool_repool st1 p = Inl Out_of_bounds
         | Inl f \<Rightarrow> False)
    | _ \<Rightarrow> False)"
  by (simp add: init_3_3 alloc_defs heap_simps)

text \<open>
  C5. The claim is that a directly mapped chunk never enters a class free list, also
  when its stored size is exactly \<open>max_pool\<close>. The code: after \<^verbatim>\<open>mpool_init(3, 12)\<close> the
  request \<^verbatim>\<open>mpool_alloc(4092)\<close> is 4096 bytes with its header, which \<^verbatim>\<open>mpool_alloc\<close>
  maps directly (\<^verbatim>\<open>sz >= max_pool\<close>); \<^verbatim>\<open>mpool_repool\<close> unmaps only when
  \<^verbatim>\<open>chunk_size > max_pool\<close>, so it pushes the mapping onto the free list of class 0 and
  calls no \<^verbatim>\<open>munmap\<close>.
\<close>

theorem repool_keeps_direct_chunk_at_max_pool:
  "(case mpool_init True (\<lambda>_. 0) 3 12 of
      Inr (Some st0) \<Rightarrow>
        (case mpool_alloc 4096 os_grants st0 4092 of
           Inr (p, st1) \<Rightarrow>
             p = 0x30004 \<and> os_log st1 = [Mmap 0x30000 4096] \<and> hs st1 ! 0 = 0 \<and>
             (case mpool_repool st1 p of
                Inr st2 \<Rightarrow> hs st2 ! 0 = 0x30000 \<and> os_log st2 = [Mmap 0x30000 4096]
              | Inl f \<Rightarrow> False)
         | Inl f \<Rightarrow> False)
    | _ \<Rightarrow> False)"
  by (simp add: init_3_12 alloc_defs heap_simps)

text \<open>
  C8. The claim is that the header before a returned pointer is the true size of the
  chunk. The code: after \<^verbatim>\<open>mpool_init(4, 12)\<close>, \<^verbatim>\<open>mpool_alloc(40)\<close> hands out the first
  64-byte chunk of the arena of class 2; \<^verbatim>\<open>mpool_repool\<close> files it under
  \<^verbatim>\<open>(64 >> 4) - 1 = 3\<close>; \<^verbatim>\<open>mpool_alloc(100)\<close>, of class 3 (128 bytes), takes it from
  \<open>fastbin[3]\<close> and writes 128 into its header. The chunk is still a cell of the arena
  that the registry records with 64-byte chunks, and the next free cell of that arena
  starts 64 bytes after it.
\<close>

theorem header_exceeds_chunk_after_reuse:
  "(case mpool_init True (\<lambda>_. 0) 4 12 of
      Inr (Some st0) \<Rightarrow>
        (case mpool_alloc 4096 os_grants st0 40 of
           Inr (p1, st1) \<Rightarrow>
             (case mpool_repool st1 p1 of
                Inr st2 \<Rightarrow>
                  (case mpool_alloc 4096 os_grants st2 100 of
                     Inr (p2, st3) \<Rightarrow>
                       p1 = 0x10004 \<and> sint (load32 (mem st1) (p1 - 4)) = 64 \<and>
                       p2 = 0x10004 \<and> sint (load32 (mem st3) (p2 - 4)) = 128 \<and>
                       ps st3 ! 2 = 0x10000 \<and> sizes st3 ! 2 = 64 \<and> hs st3 ! 2 = 0x10040
                   | Inl f \<Rightarrow> False)
              | Inl f \<Rightarrow> False)
         | Inl f \<Rightarrow> False)
    | _ \<Rightarrow> False)"
  by (simp add: init_4_12 alloc_defs heap_simps arena64_links)

section \<open>The pool registry\<close>

text \<open>
  What \<^verbatim>\<open>mpool_free\<close> adds to the trace: one \<^verbatim>\<open>munmap\<close> for each of the first
  \<open>cnt\<close> registry entries that is not \<^verbatim>\<open>NULL\<close>, in order, over the recorded size or
  one page, whichever is larger.
\<close>

lemma free_loop_trace:
  "free_loop pg i st = Inr st1 \<Longrightarrow> 0 \<le> i \<Longrightarrow>
   os_log st1 = os_log st @
     map (\<lambda>j. Munmap (ps st ! j) (if sizes st ! j < int pg then int pg else sizes st ! j))
       (filter (\<lambda>j. ps st ! j \<noteq> 0) [nat i..<nat (cnt st)])"
proof (induction pg i st rule: free_loop.induct)
  case (1 pg i st)
  show ?case
  proof (cases "i < cnt st")
    case False
    with "1.prems" show ?thesis
      by (subst (asm) free_loop.simps) simp
  next
    case True
    have upt: "[nat i..<nat (cnt st)] = nat i # [nat (i + 1)..<nat (cnt st)]"
      using True "1.prems"(2) by (simp add: upt_conv_Cons nat_add_distrib)
    have inb: "0 \<le> i \<and> nat i < length (ps st)"
      using "1.prems" True by (subst (asm) free_loop.simps) (auto split: if_splits)
    show ?thesis
    proof (cases "ps st ! nat i = 0")
      case null: True
      have "free_loop pg (i + 1) st = Inr st1"
        using "1.prems"(1) True inb null by (subst (asm) free_loop.simps) simp
      from "1.IH"(1) [OF True _ null this] inb "1.prems"(2) null show ?thesis
        by (simp add: upt)
    next
      case False
      let ?sz = "sizes st ! nat i"
      let ?st = "st\<lparr>os_log := os_log st @
                          [Munmap (ps st ! nat i) (if ?sz < int pg then int pg else ?sz)]\<rparr>"
      have inb2: "nat i < length (sizes st)" and pos: "?sz > 0"
        and rest: "free_loop pg (i + 1) ?st = Inr st1"
        using "1.prems"(1) True inb False
        by (subst (asm) free_loop.simps; simp add: Let_def split: if_splits)+
      have "os_log st1 = os_log ?st @
          map (\<lambda>j. Munmap (ps ?st ! j) (if sizes ?st ! j < int pg then int pg else sizes ?st ! j))
            (filter (\<lambda>j. ps ?st ! j \<noteq> 0) [nat (i + 1)..<nat (cnt ?st)])"
        using "1.IH"(2) [OF True _ False _ refl _ rest] inb inb2 pos "1.prems"(2) by simp
      then show ?thesis
        using False by (simp add: upt)
    qed
  qed
qed

lemma mpool_free_trace:
  assumes "mpool_free pg st = Inr tr"
  shows "tr = os_log st @
     map (\<lambda>j. Munmap (ps st ! j) (if sizes st ! j < int pg then int pg else sizes st ! j))
       (filter (\<lambda>j. ps st ! j \<noteq> 0) [0..<nat (cnt st)])"
proof -
  from assms obtain st1 where "free_loop pg 0 st = Inr st1" "tr = os_log st1"
    by (auto simp add: mpool_free_def split: sum.splits)
  with free_loop_trace [of pg 0 st st1] show ?thesis by simp
qed

text \<open>
  C6. The claim is that a failed growth of the registry changes nothing. The code doubles
  \<open>pal\<close> before it calls \<^verbatim>\<open>realloc\<close> and returns \<open>-1\<close> without restoring it: after
  \<^verbatim>\<open>mpool_init(12, 12)\<close> the registry is full (\<open>cnt = pal = 1\<close>), and a registration
  whose \<^verbatim>\<open>realloc\<close> fails leaves \<open>pal = 2\<close> over arrays of one element. The next
  registration finds \<open>cnt \<noteq> pal\<close>, skips the growth and writes \<open>ps[1]\<close> outside the
  array.
\<close>

theorem add_pool_failure_doubles_pal:
  "(case mpool_init True (\<lambda>_. 0) 12 12 of
      Inr (Some st0) \<Rightarrow>
        cnt st0 = 1 \<and> pal st0 = 1 \<and>
        (case add_pool os_no_realloc st0 0x20000 4096 of
           Inr (rc, st1) \<Rightarrow>
             rc = - 1 \<and> pal st1 = 2 \<and> cnt st1 = 1 \<and> length (ps st1) = 1 \<and>
             add_pool os_grants st1 0x20000 4096 = Inl Out_of_bounds
         | Inl f \<Rightarrow> False)
    | _ \<Rightarrow> False)"
  by (simp add: init_12_12 alloc_defs)

text \<open>
  C7. The claim is that every arena is registered when it is mapped and unmapped at
  teardown. The code on the growth path maps the new arena and links it behind the head
  chunk before it calls \<^verbatim>\<open>add_pool\<close>; when \<^verbatim>\<open>add_pool\<close> fails, \<^verbatim>\<open>mpool_alloc\<close>
  returns \<^verbatim>\<open>NULL\<close> and the arena stays mapped and unregistered. After
  \<^verbatim>\<open>mpool_init(12, 12)\<close>, \<^verbatim>\<open>mpool_alloc(100)\<close> maps the arenas \<open>0x10000\<close> and
  \<open>0x20000\<close>, the registry holds the first only, and \<^verbatim>\<open>mpool_free\<close> unmaps the first
  only.
\<close>

theorem grown_arena_unregistered_on_failure:
  "(case mpool_init True (\<lambda>_. 0) 12 12 of
      Inr (Some st0) \<Rightarrow>
        (case mpool_alloc 4096 os_no_realloc st0 100 of
           Inr (p, st1) \<Rightarrow>
             p = 0 \<and> os_log st1 = [Mmap 0x10000 4096, Mmap 0x20000 4096] \<and>
             load64 (mem st1) 0x10000 = 0x20000 \<and>
             cnt st1 = 1 \<and> ps st1 = [0x10000] \<and>
             mpool_free 4096 st1 =
               Inr [Mmap 0x10000 4096, Mmap 0x20000 4096, Munmap 0x10000 4096]
         | Inl f \<Rightarrow> False)
    | _ \<Rightarrow> False)"
  by (simp add: init_12_12 alloc_defs heap_simps arena4096_links mpool_free_def free_loop.simps)

end
